theory Spec2Isabelle
  imports Main
begin

section \<open>Python values\<close>

text \<open>
  The program is \<^verbatim>\<open>src/core.py\<close>: a coordinate codec (\<^verbatim>\<open>format_number\<close>,
  \<^verbatim>\<open>retrieve_number\<close>), a tile code builder (\<^verbatim>\<open>get_code\<close>), a WKT builder
  (\<^verbatim>\<open>create_rectangle_wkt\<close>) and the grid enumerator (\<^verbatim>\<open>get_grid_df\<close>).

  The exceptions the code can raise are values of \<open>error\<close>; a function that can raise
  returns \<open>error + 'a\<close>, with \<open>Inl\<close> for the exception.
\<close>

datatype error = KeyError | IndexError | ValueError | ZeroDivisionError

text \<open>
  A Python number is an \<^verbatim>\<open>int\<close> (unbounded) or a \<^verbatim>\<open>float\<close>. A float keeps its sign
  bit apart from its magnitude, so that \<^verbatim>\<open>-0.0\<close> is a value of its own. The magnitude of
  a finite float is held as a decimal, \<open>digits * 10 ^ exponent\<close>: every binary double is
  such a decimal, and the decimal is what \<^verbatim>\<open>str\<close> prints and what \<^verbatim>\<open>float\<close> reads.
  What \<^verbatim>\<open>float\<close> does to a decimal that is no double (rounding to the nearest
  double, infinity beyond the range of doubles) is not part of the model, and neither is
  arithmetic on floats.
\<close>

datatype pyfloat = Finite bool nat int | Infinite bool | NaN

datatype pynum = PyInt int | PyFloat pyfloat

text \<open>\<^verbatim>\<open>f_number >= 0\<close>: both zeros are non-negative, NaN compares false.\<close>

fun py_ge0 :: "pynum \<Rightarrow> bool" where
  "py_ge0 (PyInt i) = (0 \<le> i)"
| "py_ge0 (PyFloat (Finite s d e)) = (d = 0 \<or> \<not> s)"
| "py_ge0 (PyFloat (Infinite s)) = (\<not> s)"
| "py_ge0 (PyFloat NaN) = False"

text \<open>\<^verbatim>\<open>abs(f_number)\<close> clears the sign.\<close>

fun py_abs :: "pynum \<Rightarrow> pynum" where
  "py_abs (PyInt i) = PyInt \<bar>i\<bar>"
| "py_abs (PyFloat (Finite s d e)) = PyFloat (Finite False d e)"
| "py_abs (PyFloat (Infinite s)) = PyFloat (Infinite False)"
| "py_abs (PyFloat NaN) = PyFloat NaN"

section \<open>Strings\<close>


definition digit_char :: "nat \<Rightarrow> char" where
  "digit_char n = ''0123456789'' ! n"


text \<open>\<^verbatim>\<open>str(n)\<close> for a natural number: its decimal digits.\<close>

function str_nat :: "nat \<Rightarrow> string" where
  "str_nat n = (if n < 10 then [digit_char n] else str_nat (n div 10) @ [digit_char (n mod 10)])"
  by pat_completeness auto
termination
  by (relation "measure id") auto

declare str_nat.simps [simp del]

text \<open>\<^verbatim>\<open>str(i)\<close> for a Python int.\<close>

definition str_int :: "int \<Rightarrow> string" where
  "str_int i = (if i < 0 then ''-'' @ str_nat (nat (- i)) else str_nat (nat i))"


text \<open>\<^verbatim>\<open>s.replace(a, b)\<close> for one-character \<open>a\<close> and \<open>b\<close>: every occurrence is replaced.\<close>

definition str_replace :: "char \<Rightarrow> char \<Rightarrow> string \<Rightarrow> string" where
  "str_replace a b s = map (\<lambda>c. if c = a then b else c) s"



text \<open>\<^verbatim>\<open>sep.join(ls)\<close>.\<close>

fun str_join :: "string \<Rightarrow> string list \<Rightarrow> string" where
  "str_join sep [] = []"
| "str_join sep [x] = x"
| "str_join sep (x # y # ys) = x @ sep @ str_join sep (y # ys)"

section \<open>Printing and reading floats\<close>

text \<open>
  \<^verbatim>\<open>str(f)\<close> for a float is \<^verbatim>\<open>repr(f)\<close>: the shortest digit string that identifies the
  float (here: the digits without trailing zeros), laid out in fixed notation when the
  decimal point position \<open>decpt\<close> satisfies \<open>-4 < decpt \<le> 16\<close> (always with a fractional
  part, \<^verbatim>\<open>1.0\<close>), in scientific notation otherwise, the exponent printed with a sign
  and at least two digits (\<^verbatim>\<open>1e-05\<close>, \<^verbatim>\<open>1.5e+16\<close>).
\<close>

function strip_zeros :: "nat \<Rightarrow> int \<Rightarrow> nat \<times> int" where
  "strip_zeros d e = (if d \<noteq> 0 \<and> d mod 10 = 0 then strip_zeros (d div 10) (e + 1) else (d, e))"
  by pat_completeness auto
termination
  by (relation "measure fst") auto

declare strip_zeros.simps [simp del]

definition exp_digits :: "nat \<Rightarrow> string" where
  "exp_digits n = (if n < 10 then ''0'' @ str_nat n else str_nat n)"

definition repr_digits :: "nat \<Rightarrow> int \<Rightarrow> string" where
  "repr_digits d e =
     (let ds = str_nat d; n = int (length ds); decpt = n + e in
      if -4 < decpt \<and> decpt \<le> 16 then
        (if decpt \<le> 0 then ''0.'' @ replicate (nat (- decpt)) CHR ''0'' @ ds
         else if decpt < n then take (nat decpt) ds @ ''.'' @ drop (nat decpt) ds
         else ds @ replicate (nat (decpt - n)) CHR ''0'' @ ''.0'')
      else
        hd ds # (if 1 < n then ''.'' @ tl ds else [])
          @ ''e'' @ (if decpt - 1 < 0 then ''-'' else ''+'') @ exp_digits (nat \<bar>decpt - 1\<bar>))"

fun float_repr :: "pyfloat \<Rightarrow> string" where
  "float_repr (Finite s d e) =
     (if s then ''-'' else []) @
     (if d = 0 then ''0.0'' else case strip_zeros d e of (d', e') \<Rightarrow> repr_digits d' e')"
| "float_repr (Infinite s) = (if s then ''-inf'' else ''inf'')"
| "float_repr NaN = ''nan''"

text \<open>\<^verbatim>\<open>str(x)\<close>, which is also what an f-string field \<^verbatim>\<open>{x}\<close> inserts.\<close>

fun py_str :: "pynum \<Rightarrow> string" where
  "py_str (PyInt i) = str_int i"
| "py_str (PyFloat f) = float_repr f"







section \<open>The coordinate codec\<close>

text \<open>\<^verbatim>\<open>create_rectangle_wkt\<close> (core.py, lines 5-19): one f-string.\<close>

definition create_rectangle_wkt :: "pynum \<Rightarrow> pynum \<Rightarrow> pynum \<Rightarrow> pynum \<Rightarrow> string" where
  "create_rectangle_wkt xmin xmax ymin ymax =
     ''POLYGON(('' @ py_str xmin @ '' '' @ py_str ymin @ '', '' @ py_str xmin @ '' '' @ py_str ymax
       @ '', '' @ py_str xmax @ '' '' @ py_str ymax @ '', ''
       @ py_str xmax @ '' '' @ py_str ymin @ '', '' @ py_str xmin @ '' '' @ py_str ymin @ ''))''"



text \<open>
  \<^verbatim>\<open>format_number\<close> (core.py, lines 46-76). \<open>axis\<close> is \<open>None\<close> for Python's
  \<^verbatim>\<open>None\<close>. The dictionary lookup in the sign test comes first, as in the source.
\<close>

definition d_signal_positive :: "string option \<rightharpoonup> string" where
  "d_signal_positive = [Some ''y'' \<mapsto> ''n'', Some ''x'' \<mapsto> ''e'']"

definition d_signal_negative :: "string option \<rightharpoonup> string" where
  "d_signal_negative = [Some ''y'' \<mapsto> ''s'', Some ''x'' \<mapsto> ''w'']"

definition format_number :: "pynum \<Rightarrow> string option \<Rightarrow> error + string" where
  "format_number f_number axis =
     (case (if py_ge0 f_number then d_signal_positive axis else d_signal_negative axis) of
        None \<Rightarrow> Inl KeyError
      | Some s_hem \<Rightarrow>
          let f_abs = py_abs f_number;
              s_abs = str_replace CHR ''.'' CHR ''p'' (py_str f_abs);
              s_hem' = (if axis = None then [] else s_hem)
          in Inr (s_hem' @ s_abs))"

text \<open>\<^verbatim>\<open>get_code\<close> (core.py, lines 79-98).\<close>

definition get_code :: "pynum \<Rightarrow> pynum \<Rightarrow> pynum \<Rightarrow> pynum \<Rightarrow> error + string" where
  "get_code xmin xmax ymin ymax =
     (case format_number xmin (Some ''x'') of Inl err \<Rightarrow> Inl err | Inr a \<Rightarrow>
     (case format_number xmax (Some ''x'') of Inl err \<Rightarrow> Inl err | Inr b \<Rightarrow>
     (case format_number ymin (Some ''y'') of Inl err \<Rightarrow> Inl err | Inr c \<Rightarrow>
     (case format_number ymax (Some ''y'') of Inl err \<Rightarrow> Inl err | Inr d \<Rightarrow>
        Inr (str_join ''-'' [a, b, c, d])))))"

section \<open>The grid enumerator\<close>

text \<open>
  \<^verbatim>\<open>np.arange(start, stop, step)\<close> for Python ints: an int64 array of
  \<open>ceil((stop - start) / step)\<close> values \<open>start + i * step\<close> (none when that number is
  not positive); a zero step raises ZeroDivisionError. \<open>- ((start - stop) div step)\<close> is
  that ceiling, \<open>div\<close> rounding down. The arguments are taken to fit 64 bits. With a
  float among the arguments \<^verbatim>\<open>np.arange\<close> computes in double precision, which is not
  modelled: the grid is modelled for integer arguments.
\<close>

definition np_arange :: "int \<Rightarrow> int \<Rightarrow> int \<Rightarrow> error + int list" where
  "np_arange start stop step =
     (if step = 0 then Inl ZeroDivisionError
      else Inr (map (\<lambda>i. start + int i * step) [0 ..< nat (- ((start - stop) div step))]))"

text \<open>\<^verbatim>\<open>xs[i]\<close> raises IndexError out of range.\<close>

definition np_index :: "int list \<Rightarrow> nat \<Rightarrow> error + int" where
  "np_index xs i = (if i < length xs then Inr (xs ! i) else Inl IndexError)"

text \<open>
  One row of the DataFrame. The source appends to seven lists, once each per iteration,
  and builds the table from them: row \<open>k\<close> of the table is the \<open>k\<close>-th tuple appended.
\<close>

record grid_row =
  Id :: int
  tile_code :: string
  x_min :: int
  x_max :: int
  y_min :: int
  y_max :: int
  geometry :: string

text \<open>The loop state: the counter \<^verbatim>\<open>c_id\<close> and the rows appended so far.\<close>

type_synonym grid_state = "int \<times> grid_row list"

definition loop_body :: "int list \<Rightarrow> int list \<Rightarrow> nat \<Rightarrow> nat \<Rightarrow> grid_state \<Rightarrow> error + grid_state" where
  "loop_body xs ys i j st =
     (case np_index xs i of Inl err \<Rightarrow> Inl err | Inr xmin \<Rightarrow>
     (case np_index xs (i + 1) of Inl err \<Rightarrow> Inl err | Inr xmax \<Rightarrow>
     (case np_index ys j of Inl err \<Rightarrow> Inl err | Inr ymin \<Rightarrow>
     (case np_index ys (j + 1) of Inl err \<Rightarrow> Inl err | Inr ymax \<Rightarrow>
       (let s = create_rectangle_wkt (PyInt xmin) (PyInt xmax) (PyInt ymin) (PyInt ymax) in
        case get_code (PyInt xmin) (PyInt xmax) (PyInt ymin) (PyInt ymax) of
          Inl err \<Rightarrow> Inl err
        | Inr code \<Rightarrow>
            Inr (fst st + 1,
                 snd st @ [\<lparr>Id = fst st, tile_code = code, x_min = xmin, x_max = xmax,
                            y_min = ymin, y_max = ymax, geometry = s\<rparr>]))))))"

text \<open>\<^verbatim>\<open>for j in range(len(ys) - 1)\<close>, over the list of the indices.\<close>

fun for_j :: "int list \<Rightarrow> int list \<Rightarrow> nat \<Rightarrow> nat list \<Rightarrow> grid_state \<Rightarrow> error + grid_state" where
  "for_j xs ys i [] st = Inr st"
| "for_j xs ys i (j # js) st =
     (case loop_body xs ys i j st of Inl err \<Rightarrow> Inl err | Inr st' \<Rightarrow> for_j xs ys i js st')"

text \<open>
  \<^verbatim>\<open>for i in range(len(xs) - 1)\<close>. \<^verbatim>\<open>range\<close> of a negative number is empty, as is
  \<open>[0 ..< length ys - 1]\<close> for the empty \<open>ys\<close>.
\<close>

fun for_i :: "int list \<Rightarrow> int list \<Rightarrow> nat list \<Rightarrow> grid_state \<Rightarrow> error + grid_state" where
  "for_i xs ys [] st = Inr st"
| "for_i xs ys (i # is) st =
     (case for_j xs ys i [0 ..< length ys - 1] st of
        Inl err \<Rightarrow> Inl err
      | Inr st' \<Rightarrow> for_i xs ys is st')"

text \<open>\<^verbatim>\<open>get_grid_df\<close> (core.py, lines 101-157), called with Python ints.\<close>

definition get_grid_df :: "int \<Rightarrow> int \<Rightarrow> int \<Rightarrow> int \<Rightarrow> int \<Rightarrow> error + grid_row list" where
  "get_grid_df step xs_min xs_max ys_min ys_max =
     (case np_arange xs_min xs_max step of Inl err \<Rightarrow> Inl err | Inr xs \<Rightarrow>
     (case np_arange ys_min ys_max step of Inl err \<Rightarrow> Inl err | Inr ys \<Rightarrow>
     (case for_i xs ys [0 ..< length xs - 1] (1, []) of
        Inl err \<Rightarrow> Inl err
      | Inr st \<Rightarrow> Inr (snd st))))"





text \<open>
  For the closed form of the table: the values \<^verbatim>\<open>np.arange\<close> returns for a non-zero
  step, and the row the loop body appends for the indices \<open>i\<close>, \<open>j\<close> and the counter
  \<open>c\<close>.
\<close>

definition arange_list :: "int \<Rightarrow> int \<Rightarrow> int \<Rightarrow> int list" where
  "arange_list start stop step =
     map (\<lambda>i. start + int i * step) [0 ..< nat (- ((start - stop) div step))]"

definition grid_cell :: "int list \<Rightarrow> int list \<Rightarrow> nat \<Rightarrow> nat \<Rightarrow> int \<Rightarrow> grid_row" where
  "grid_cell xs ys i j c =
     \<lparr>Id = c,
      tile_code =
        (case get_code (PyInt (xs ! i)) (PyInt (xs ! (i + 1))) (PyInt (ys ! j)) (PyInt (ys ! (j + 1))) of
           Inr code \<Rightarrow> code
         | Inl err \<Rightarrow> []),
      x_min = xs ! i, x_max = xs ! (i + 1), y_min = ys ! j, y_max = ys ! (j + 1),
      geometry =
        create_rectangle_wkt (PyInt (xs ! i)) (PyInt (xs ! (i + 1))) (PyInt (ys ! j)) (PyInt (ys ! (j + 1)))\<rparr>"

text \<open>
  A point lies in a cell when it is at or above the lower bounds and below the upper
  bounds; the coordinates of the point may be integers, rationals or reals.
\<close>

definition cell_contains :: "grid_row \<Rightarrow> 'a::linordered_idom \<Rightarrow> 'a \<Rightarrow> bool" where
  "cell_contains r px py =
     (of_int (x_min r) \<le> px \<and> px < of_int (x_max r) \<and> of_int (y_min r) \<le> py \<and> py < of_int (y_max r))"

section \<open>The specification's wording\<close>

text \<open>
  The ring of the rectangle and the WKT layout as the specification words them, to be
  compared with what \<open>create_rectangle_wkt\<close> builds.
\<close>

definition spec_ring :: "pynum \<Rightarrow> pynum \<Rightarrow> pynum \<Rightarrow> pynum \<Rightarrow> (pynum \<times> pynum) list" where
  "spec_ring xmin xmax ymin ymax =
     [(xmin, ymin), (xmin, ymax), (xmax, ymax), (xmax, ymin), (xmin, ymin)]"

definition spec_wkt_polygon :: "(pynum \<times> pynum) list \<Rightarrow> string" where
  "spec_wkt_polygon ring =
     ''POLYGON(('' @ str_join '', '' (map (\<lambda>p. py_str (fst p) @ '' '' @ py_str (snd p)) ring)
       @ ''))''"





text \<open>
  Python's \<^verbatim>\<open>==\<close> on numbers compares values: an int and a float are equal when they
  denote the same number, the two zeros are equal, NaN equals nothing.
\<close>

fun float_eq :: "pyfloat \<Rightarrow> pyfloat \<Rightarrow> bool" where
  "float_eq (Finite s1 d1 e1) (Finite s2 d2 e2) =
     (let m = min e1 e2; a = d1 * 10 ^ nat (e1 - m); b = d2 * 10 ^ nat (e2 - m)
      in a = b \<and> (s1 = s2 \<or> a = 0))"
| "float_eq (Infinite s1) (Infinite s2) = (s1 = s2)"
| "float_eq _ _ = False"




section \<open>Digits and strings\<close>
















section \<open>Reading a decimal\<close>












section \<open>The codec: decoding\<close>














section \<open>The codec: encoding\<close>

lemma format_number_x:
  "format_number v (Some ''x'') =
     Inr ((if py_ge0 v then ''e'' else ''w'') @ str_replace CHR ''.'' CHR ''p'' (py_str (py_abs v)))"
  by (simp add: format_number_def d_signal_positive_def d_signal_negative_def)

lemma format_number_y:
  "format_number v (Some ''y'') =
     Inr ((if py_ge0 v then ''n'' else ''s'') @ str_replace CHR ''.'' CHR ''p'' (py_str (py_abs v)))"
  by (simp add: format_number_def d_signal_positive_def d_signal_negative_def)

lemma str_int_0: "str_int 0 = ''0''"
  by code_simp

text \<open>
  Claim C4. With \<^verbatim>\<open>axis=None\<close> the specification promises the numeric-only string and no
  error. The source looks \<open>axis\<close> up in the hemisphere dictionary before it reaches
  \<^verbatim>\<open>if axis is None\<close>, so the call raises KeyError for every number.
\<close>

theorem format_number_axis_None_raises: "format_number f_number None = Inl KeyError"
  by (simp add: format_number_def d_signal_positive_def d_signal_negative_def)

text \<open>
  \<open>format_number\<close> raises KeyError exactly when \<open>axis\<close> is neither
  \<^verbatim>\<open>"x"\<close> nor \<^verbatim>\<open>"y"\<close>, whatever the number.
\<close>

theorem format_number_KeyError:
  "(format_number f_number axis = Inl KeyError) = (axis \<noteq> Some ''x'' \<and> axis \<noteq> Some ''y'')"
  by (cases "py_ge0 f_number")
     (auto simp: format_number_def d_signal_positive_def d_signal_negative_def Let_def)

text \<open>
  Claim C10. Negative zero passes the test \<^verbatim>\<open>f_number >= 0\<close>: a zero of either sign
  bit, and the int zero, get the prefix \<open>n\<close> on the y axis and \<open>e\<close> on the x axis, never
  \<open>s\<close> or \<open>w\<close>.
\<close>

theorem format_number_zero_positive_hemisphere:
  "format_number (PyFloat (Finite True 0 e)) (Some ''y'') = Inr ''n0p0''
   \<and> format_number (PyFloat (Finite True 0 e)) (Some ''x'') = Inr ''e0p0''
   \<and> format_number (PyFloat (Finite False 0 e)) (Some ''y'') = Inr ''n0p0''
   \<and> format_number (PyFloat (Finite False 0 e)) (Some ''x'') = Inr ''e0p0''
   \<and> format_number (PyInt 0) (Some ''y'') = Inr ''n0''
   \<and> format_number (PyInt 0) (Some ''x'') = Inr ''e0''"
  by (simp add: format_number_x format_number_y str_replace_def str_int_0)

section \<open>The codec: the round trip\<close>






























lemma float_eq_zero: "float_eq (Finite s 0 e) (Finite s' 0 e')"
  by (simp add: Let_def)

lemma float_eq_int: "float_eq (Finite s d 0) (Finite s d 0)"
  by (simp add: Let_def)





section \<open>The tile code and the WKT polygon\<close>

text \<open>
  Claim C8. \<open>get_code\<close> encodes \<open>xmin\<close> and \<open>xmax\<close> on the x axis, \<open>ymin\<close> and \<open>ymax\<close>
  on the y axis, none of the four calls fails, and the result is the four strings in
  that order with \<open>-\<close> between them; \<^verbatim>\<open>get_code(-10, -9, -5, -4)\<close> is
  \<^verbatim>\<open>w10-w9-s5-s4\<close>.
\<close>

theorem get_code_joins_encoded_bounds:
  "(\<exists>a b c d. format_number xmin (Some ''x'') = Inr a \<and> format_number xmax (Some ''x'') = Inr b
      \<and> format_number ymin (Some ''y'') = Inr c \<and> format_number ymax (Some ''y'') = Inr d
      \<and> get_code xmin xmax ymin ymax = Inr (a @ ''-'' @ b @ ''-'' @ c @ ''-'' @ d))
   \<and> get_code (PyInt (- 10)) (PyInt (- 9)) (PyInt (- 5)) (PyInt (- 4)) = Inr ''w10-w9-s5-s4''"
proof
  show "\<exists>a b c d. format_number xmin (Some ''x'') = Inr a \<and> format_number xmax (Some ''x'') = Inr b
      \<and> format_number ymin (Some ''y'') = Inr c \<and> format_number ymax (Some ''y'') = Inr d
      \<and> get_code xmin xmax ymin ymax = Inr (a @ ''-'' @ b @ ''-'' @ c @ ''-'' @ d)"
    by (simp add: get_code_def format_number_x format_number_y)
  show "get_code (PyInt (- 10)) (PyInt (- 9)) (PyInt (- 5)) (PyInt (- 4)) = Inr ''w10-w9-s5-s4''"
    by code_simp
qed

text \<open>
  Claim C7. \<open>create_rectangle_wkt\<close> prints the ring
  (xmin, ymin), (xmin, ymax), (xmax, ymax), (xmax, ymin), (xmin, ymin): five points, the
  last one the first again, each as \<^verbatim>\<open>str(x) str(y)\<close>, separated by a comma and a
  space inside \<^verbatim>\<open>POLYGON((...))\<close>; for the ints 0, 1, 0, 1 the text is
  \<^verbatim>\<open>POLYGON((0 0, 0 1, 1 1, 1 0, 0 0))\<close>.
\<close>

theorem create_rectangle_wkt_ring:
  "create_rectangle_wkt xmin xmax ymin ymax = spec_wkt_polygon (spec_ring xmin xmax ymin ymax)
   \<and> length (spec_ring xmin xmax ymin ymax) = 5
   \<and> hd (spec_ring xmin xmax ymin ymax) = last (spec_ring xmin xmax ymin ymax)
   \<and> create_rectangle_wkt (PyInt 0) (PyInt 1) (PyInt 0) (PyInt 1)
       = ''POLYGON((0 0, 0 1, 1 1, 1 0, 0 0))''"
proof -
  have "create_rectangle_wkt (PyInt 0) (PyInt 1) (PyInt 0) (PyInt 1)
          = ''POLYGON((0 0, 0 1, 1 1, 1 0, 0 0))''"
    by code_simp
  then show ?thesis
    by (simp add: create_rectangle_wkt_def spec_wkt_polygon_def spec_ring_def)
qed

section \<open>The grid\<close>





subsection \<open>The table in closed form\<close>

lemma get_code_total: "\<exists>code. get_code a b c d = Inr code"
  by (simp add: get_code_def format_number_x format_number_y)

lemma loop_body_in_range:
  assumes "Suc i < length xs" "Suc j < length ys"
  shows "loop_body xs ys i j (c, rows) = Inr (c + 1, rows @ [grid_cell xs ys i j c])"
proof -
  obtain code where
    "get_code (PyInt (xs ! i)) (PyInt (xs ! (i + 1))) (PyInt (ys ! j)) (PyInt (ys ! (j + 1))) = Inr code"
    using get_code_total by blast
  then show ?thesis
    using assms by (simp add: loop_body_def np_index_def grid_cell_def)
qed

lemma for_j_rows:
  assumes "Suc i < length xs" "\<forall>j\<in>set js. Suc j < length ys"
  shows "for_j xs ys i js (c, rows) =
           Inr (c + int (length js),
                rows @ map (\<lambda>k. grid_cell xs ys i (js ! k) (c + int k)) [0 ..< length js])"
  using assms(2)
proof (induction js arbitrary: c rows)
  case Nil
  then show ?case by simp
next
  case (Cons j js)
  have "for_j xs ys i (j # js) (c, rows) = for_j xs ys i js (c + 1, rows @ [grid_cell xs ys i j c])"
    using Cons.prems assms(1) by (simp add: loop_body_in_range)
  also have "\<dots> = Inr (c + 1 + int (length js),
      (rows @ [grid_cell xs ys i j c])
        @ map (\<lambda>k. grid_cell xs ys i (js ! k) (c + 1 + int k)) [0 ..< length js])"
    using Cons.prems by (intro Cons.IH) simp
  also have "\<dots> = Inr (c + int (length (j # js)),
      rows @ map (\<lambda>k. grid_cell xs ys i ((j # js) ! k) (c + int k)) [0 ..< length (j # js)])"
    by (simp add: map_upt_Suc add.assoc del: upt_Suc)
  finally show ?case .
qed

lemma for_j_range:
  assumes "Suc i < length xs"
  shows "for_j xs ys i [0 ..< length ys - 1] (c, rows) =
           Inr (c + int (length ys - 1),
                rows @ map (\<lambda>j. grid_cell xs ys i j (c + int j)) [0 ..< length ys - 1])"
proof -
  have "\<forall>j\<in>set [0 ..< length ys - 1]. Suc j < length ys" by auto
  from for_j_rows [OF assms this, of c rows] show ?thesis
    by (simp cong: map_cong)
qed

lemma for_i_rows:
  assumes "\<forall>i\<in>set is. Suc i < length xs"
  shows "for_i xs ys is (c, rows) =
           Inr (c + int (length is * (length ys - 1)),
                rows @ concat (map (\<lambda>k. map (\<lambda>j. grid_cell xs ys (is ! k) j
                                  (c + int (k * (length ys - 1) + j))) [0 ..< length ys - 1])
                          [0 ..< length is]))"
  using assms
proof (induction "is" arbitrary: c rows)
  case Nil
  then show ?case by simp
next
  case (Cons i "is")
  define m where "m = length ys - 1"
  define blk where "blk = map (\<lambda>j. grid_cell xs ys i j (c + int j)) [0 ..< m]"
  have "Suc i < length xs" using Cons.prems by simp
  from for_j_range [OF this, of ys c rows]
  have "for_j xs ys i [0 ..< length ys - 1] (c, rows) = Inr (c + int m, rows @ blk)"
    by (simp add: m_def blk_def)
  then have "for_i xs ys (i # is) (c, rows) = for_i xs ys is (c + int m, rows @ blk)"
    by (simp only: for_i.simps sum.case)
  also have "\<dots> = Inr (c + int m + int (length is * m),
      (rows @ blk) @ concat (map (\<lambda>k. map (\<lambda>j. grid_cell xs ys (is ! k) j
                                  (c + int m + int (k * m + j))) [0 ..< m])
                          [0 ..< length is]))"
    unfolding m_def using Cons.prems by (intro Cons.IH) simp
  also have "\<dots> = Inr (c + int (length (i # is) * m),
      rows @ concat (map (\<lambda>k. map (\<lambda>j. grid_cell xs ys ((i # is) ! k) j
                                  (c + int (k * m + j))) [0 ..< m])
                          [0 ..< length (i # is)]))"
    by (simp add: map_upt_Suc blk_def algebra_simps del: upt_Suc)
  finally show ?case unfolding m_def .
qed

lemma concat_blocks:
  "concat (map (\<lambda>i. map (\<lambda>j. f (i * m + j)) [0 ..< m]) [0 ..< n]) = map f [0 ..< n * m]"
proof (induction n)
  case 0
  then show ?case by simp
next
  case (Suc n)
  have "Suc n * m = n * m + m" by simp
  then have "[0 ..< Suc n * m] = [0 ..< n * m] @ [n * m ..< n * m + m]"
    using upt_add_eq_append [of 0 "n * m" m] by (simp add: add.commute)
  moreover have "[n * m ..< n * m + m] = map (\<lambda>j. n * m + j) [0 ..< m]"
    using map_add_upt [of "n * m" m] by (simp only: add.commute)
  ultimately have "map f [0 ..< Suc n * m]
      = map f [0 ..< n * m] @ map (\<lambda>j. f (n * m + j)) [0 ..< m]"
    by (simp only: map_append map_map comp_def)
  moreover have "concat (map (\<lambda>i. map (\<lambda>j. f (i * m + j)) [0 ..< m]) [0 ..< Suc n])
      = concat (map (\<lambda>i. map (\<lambda>j. f (i * m + j)) [0 ..< m]) [0 ..< n])
          @ map (\<lambda>j. f (n * m + j)) [0 ..< m]"
    by simp
  ultimately show ?case by (simp only: Suc)
qed

lemma np_arange_list: "step \<noteq> 0 \<Longrightarrow> np_arange start stop step = Inr (arange_list start stop step)"
  by (simp add: np_arange_def arange_list_def)

lemma get_grid_df_rows:
  fixes step xs_min xs_max ys_min ys_max :: int
  assumes "step \<noteq> 0"
  defines "xs \<equiv> arange_list xs_min xs_max step" and "ys \<equiv> arange_list ys_min ys_max step"
  shows "get_grid_df step xs_min xs_max ys_min ys_max =
           Inr (map (\<lambda>k. grid_cell xs ys (k div (length ys - 1)) (k mod (length ys - 1)) (1 + int k))
                  [0 ..< (length xs - 1) * (length ys - 1)])"
proof -
  define m where "m = length ys - 1"
  have "\<forall>i\<in>set [0 ..< length xs - 1]. Suc i < length xs" by auto
  from for_i_rows [OF this, of ys 1 "[]"]
  have "for_i xs ys [0 ..< length xs - 1] (1, []) =
      Inr (1 + int ((length xs - 1) * m),
           concat (map (\<lambda>k. map (\<lambda>j. grid_cell xs ys ([0 ..< length xs - 1] ! k) j
                                  (1 + int (k * m + j))) [0 ..< m]) [0 ..< length xs - 1]))"
    by (simp only: m_def length_upt diff_zero append_Nil)
  also have "concat (map (\<lambda>k. map (\<lambda>j. grid_cell xs ys ([0 ..< length xs - 1] ! k) j
                                  (1 + int (k * m + j))) [0 ..< m]) [0 ..< length xs - 1])
      = concat (map (\<lambda>i. map (\<lambda>j. grid_cell xs ys i j (1 + int (i * m + j))) [0 ..< m])
                     [0 ..< length xs - 1])"
    by (intro arg_cong [where f = concat] map_cong refl) simp
  also have "concat (map (\<lambda>i. map (\<lambda>j. grid_cell xs ys i j (1 + int (i * m + j))) [0 ..< m])
                     [0 ..< length xs - 1])
      = concat (map (\<lambda>i. map (\<lambda>j. grid_cell xs ys ((i * m + j) div m) ((i * m + j) mod m)
                                    (1 + int (i * m + j))) [0 ..< m]) [0 ..< length xs - 1])"
    by (intro arg_cong [where f = concat] map_cong refl) simp_all
  also have "\<dots> = map (\<lambda>k. grid_cell xs ys (k div m) (k mod m) (1 + int k)) [0 ..< (length xs - 1) * m]"
    by (rule concat_blocks)
  finally show ?thesis
    using assms(1) by (simp add: get_grid_df_def np_arange_list xs_def ys_def m_def)
qed

lemma length_arange_list: "length (arange_list a b s) = nat (- ((a - b) div s))"
  by (simp add: arange_list_def)

lemma arange_list_nth: "k < length (arange_list a b s) \<Longrightarrow> arange_list a b s ! k = a + int k * s"
  by (simp add: arange_list_def)

lemma arange_list_below_stop:
  assumes "0 < s" "k < length (arange_list a b s)"
  shows "a + int k * s < b"
proof -
  define q where "q = (a - b) div s"
  define r where "r = (a - b) mod s"
  have r: "r < s" using assms(1) by (simp add: r_def)
  have split: "a - b = q * s + r" by (simp add: q_def r_def)
  have "int k < - q" using assms(2) by (simp add: length_arange_list q_def)
  then have "q \<le> - int k - 1" by simp
  then have "q * s \<le> (- int k - 1) * s" using assms(1) by (intro mult_right_mono) simp_all
  then have "a - b < (- int k - 1) * s + s" using split r by linarith
  then show ?thesis by (simp add: algebra_simps)
qed

lemma grid_cell_bounds:
  "x_min (grid_cell xs ys i j c) = xs ! i" "x_max (grid_cell xs ys i j c) = xs ! (i + 1)"
  "y_min (grid_cell xs ys i j c) = ys ! j" "y_max (grid_cell xs ys i j c) = ys ! (j + 1)"
  "Id (grid_cell xs ys i j c) = c"
  by (simp_all add: grid_cell_def)

lemma div_mod_in_block:
  fixes k n m :: nat
  assumes "k < n * m"
  shows "k div m < n" "k mod m < m"
proof -
  have "0 < m" using assms by (cases m) simp_all
  then show "k mod m < m" by simp
  show "k div m < n" using assms by (simp add: less_mult_imp_div_less)
qed

text \<open>
  Claim C2. The cells are to tile the given bounding box. With a positive step every
  cell the source emits is one step wide and high and starts at or above the lower
  bounds, but its upper bounds stay strictly below \<open>xs_max\<close> and \<open>ys_max\<close>:
  \<^verbatim>\<open>np.arange\<close> stops before the upper bound and the loops stop one index before the
  end of the arrays, so the band that ends at (or contains) the upper bound is never
  built, in either axis.
\<close>

theorem get_grid_df_stops_short:
  assumes "0 < step" and "get_grid_df step xs_min xs_max ys_min ys_max = Inr rows"
    and "r \<in> set rows"
  shows "xs_min \<le> x_min r \<and> x_max r = x_min r + step \<and> x_max r < xs_max
       \<and> ys_min \<le> y_min r \<and> y_max r = y_min r + step \<and> y_max r < ys_max"
proof -
  define xs where "xs = arange_list xs_min xs_max step"
  define ys where "ys = arange_list ys_min ys_max step"
  define n where "n = length xs - 1"
  define m where "m = length ys - 1"
  have "step \<noteq> 0" using assms(1) by simp
  from get_grid_df_rows [OF this, of xs_min xs_max ys_min ys_max] assms(2)
  have "rows = map (\<lambda>k. grid_cell xs ys (k div m) (k mod m) (1 + int k)) [0 ..< n * m]"
    by (simp add: xs_def ys_def n_def m_def)
  with assms(3) obtain k where k: "k < n * m" "r = grid_cell xs ys (k div m) (k mod m) (1 + int k)"
    by auto
  define i where "i = k div m"
  define j where "j = k mod m"
  have "i < n" "j < m" using div_mod_in_block [OF k(1)] by (simp_all add: i_def j_def)
  then have i: "i < length xs" "i + 1 < length xs" and j: "j < length ys" "j + 1 < length ys"
    by (simp_all add: n_def m_def)
  have "xs ! i = xs_min + int i * step" "xs ! (i + 1) = xs_min + int (i + 1) * step"
    using i by (simp_all only: xs_def arange_list_nth)
  moreover have "xs_min + int (i + 1) * step < xs_max"
    using i(2) unfolding xs_def by (rule arange_list_below_stop [OF assms(1)])
  moreover have "ys ! j = ys_min + int j * step" "ys ! (j + 1) = ys_min + int (j + 1) * step"
    using j by (simp_all only: ys_def arange_list_nth)
  moreover have "ys_min + int (j + 1) * step < ys_max"
    using j(2) unfolding ys_def by (rule arange_list_below_stop [OF assms(1)])
  moreover have "0 \<le> int i * step" "0 \<le> int j * step"
    using assms(1) by simp_all
  ultimately show ?thesis
    by (simp add: k(2) grid_cell_bounds i_def [symmetric] j_def [symmetric] algebra_simps)
qed

theorem get_grid_df_stops_short_witness:
  "get_grid_df 1 0 3 0 2 =
     Inr [\<lparr>Id = 1, tile_code = ''e0-e1-n0-n1'', x_min = 0, x_max = 1, y_min = 0, y_max = 1,
            geometry = ''POLYGON((0 0, 0 1, 1 1, 1 0, 0 0))''\<rparr>,
          \<lparr>Id = 2, tile_code = ''e1-e2-n0-n1'', x_min = 1, x_max = 2, y_min = 0, y_max = 1,
            geometry = ''POLYGON((1 0, 1 1, 2 1, 2 0, 1 0))''\<rparr>]
   \<and> x_max \<lparr>Id = 2, tile_code = ''e1-e2-n0-n1'', x_min = 1, x_max = 2, y_min = 0, y_max = 1,
            geometry = ''POLYGON((1 0, 1 1, 2 1, 2 0, 1 0))''\<rparr> < 3
   \<and> y_max \<lparr>Id = 2, tile_code = ''e1-e2-n0-n1'', x_min = 1, x_max = 2, y_min = 0, y_max = 1,
            geometry = ''POLYGON((1 0, 1 1, 2 1, 2 0, 1 0))''\<rparr> < 2"
proof -
  have run: "get_grid_df 1 0 3 0 2 =
     Inr [\<lparr>Id = 1, tile_code = ''e0-e1-n0-n1'', x_min = 0, x_max = 1, y_min = 0, y_max = 1,
            geometry = ''POLYGON((0 0, 0 1, 1 1, 1 0, 0 0))''\<rparr>,
          \<lparr>Id = 2, tile_code = ''e1-e2-n0-n1'', x_min = 1, x_max = 2, y_min = 0, y_max = 1,
            geometry = ''POLYGON((1 0, 1 1, 2 1, 2 0, 1 0))''\<rparr>]"
    by code_simp
  show ?thesis
    using get_grid_df_stops_short [OF _ run,
        of "\<lparr>Id = 2, tile_code = ''e1-e2-n0-n1'', x_min = 1, x_max = 2, y_min = 0, y_max = 1,
            geometry = ''POLYGON((1 0, 1 1, 2 1, 2 0, 1 0))''\<rparr>"] run
    by simp
qed

subsection \<open>Order, ids and what the cells tile\<close>

text \<open>
  For a non-zero step \<open>get_grid_df\<close> returns a table and raises no
  error. With \<open>xs\<close> and \<open>ys\<close> the two coordinate arrays, the table has
  \<open>(len(xs) - 1) * (len(ys) - 1)\<close> rows, their ids are 1, 2, 3 and so on in the order of
  the rows, and row \<open>k\<close> (from 0) is the cell of the x band \<open>k div (len(ys) - 1)\<close> and the
  y band \<open>k mod (len(ys) - 1)\<close>: all y bands of an x band come before the next x band.
\<close>

theorem get_grid_df_row_major:
  fixes step xs_min xs_max ys_min ys_max :: int
  assumes "step \<noteq> 0"
  shows "\<exists>rows. get_grid_df step xs_min xs_max ys_min ys_max = Inr rows
           \<and> length rows = (length (arange_list xs_min xs_max step) - 1)
                             * (length (arange_list ys_min ys_max step) - 1)
           \<and> map Id rows = map int [1 ..< Suc (length rows)]
           \<and> (\<forall>k < length rows.
                 rows ! k = grid_cell (arange_list xs_min xs_max step) (arange_list ys_min ys_max step)
                              (k div (length (arange_list ys_min ys_max step) - 1))
                              (k mod (length (arange_list ys_min ys_max step) - 1)) (1 + int k))"
proof -
  define xs where "xs = arange_list xs_min xs_max step"
  define ys where "ys = arange_list ys_min ys_max step"
  define rows where "rows = map (\<lambda>k. grid_cell xs ys (k div (length ys - 1)) (k mod (length ys - 1))
      (1 + int k)) [0 ..< (length xs - 1) * (length ys - 1)]"
  have run: "get_grid_df step xs_min xs_max ys_min ys_max = Inr rows"
    using get_grid_df_rows [OF assms, of xs_min xs_max ys_min ys_max]
    by (simp add: rows_def xs_def ys_def)
  have len: "length rows = (length xs - 1) * (length ys - 1)"
    by (simp add: rows_def)
  have "map Id rows = map (\<lambda>k. 1 + int k) [0 ..< length rows]"
    by (simp add: rows_def grid_cell_bounds comp_def)
  also have "\<dots> = map int (map Suc [0 ..< length rows])"
    by (simp add: comp_def)
  also have "map Suc [0 ..< length rows] = [1 ..< Suc (length rows)]"
    using map_Suc_upt [of 0 "length rows"] by simp
  finally have ids: "map Id rows = map int [1 ..< Suc (length rows)]" .
  have "\<forall>k < length rows. rows ! k = grid_cell xs ys (k div (length ys - 1))
      (k mod (length ys - 1)) (1 + int k)"
    by (simp add: rows_def)
  with run len ids show ?thesis unfolding xs_def ys_def by blast
qed

theorem get_grid_df_row_major_witness:
  "\<exists>rows. get_grid_df 1 0 3 0 3 = Inr rows \<and> length rows = 4 \<and> map Id rows = [1, 2, 3, 4]"
proof -
  have len: "length (arange_list 0 3 1) = 3"
    by (simp add: arange_list_def)
  have ids: "map int [1 ..< Suc 4] = [1, 2, 3, 4]"
    by code_simp
  have "(1 :: int) \<noteq> 0" by simp
  from get_grid_df_row_major [OF this, of 0 3 0 3] obtain rows where
    rows: "get_grid_df 1 0 3 0 3 = Inr rows"
    "length rows = (length (arange_list 0 3 1) - 1) * (length (arange_list 0 3 1) - 1)"
    "map Id rows = map int [1 ..< Suc (length rows)]"
    by blast
  from rows(2) have l4: "length rows = 4"
    by (simp add: len)
  from rows(3) have "map Id rows = [1, 2, 3, 4]"
    unfolding l4 ids .
  with rows(1) l4
  have "get_grid_df 1 0 3 0 3 = Inr rows \<and> length rows = 4 \<and> map Id rows = [1, 2, 3, 4]"
    by (intro conjI)
  then show ?thesis by (rule exI)
qed

lemma band_exists:
  fixes p :: "'a::linorder"
  shows "sorted_wrt (<) zs \<Longrightarrow> zs \<noteq> [] \<Longrightarrow> hd zs \<le> p \<Longrightarrow> p < last zs \<Longrightarrow>
         \<exists>i. Suc i < length zs \<and> zs ! i \<le> p \<and> p < zs ! Suc i"
proof (induction zs)
  case Nil
  then show ?case by simp
next
  case (Cons z rest)
  note prems = Cons.prems and IH = Cons.IH
  show ?case
  proof (cases rest)
    case Nil
    with prems show ?thesis by simp
  next
    case rest: (Cons z' rest')
    show ?thesis
    proof (cases "p < z'")
      case True
      with prems(3) rest show ?thesis by (intro exI [of _ 0]) simp
    next
      case False
      have "sorted_wrt (<) rest" using prems(1) by simp
      moreover have "rest \<noteq> []" "hd rest \<le> p" using False rest by simp_all
      moreover have "p < last rest" using prems(4) rest by simp
      ultimately obtain i where "Suc i < length rest" "rest ! i \<le> p" "p < rest ! Suc i"
        using IH by blast
      then show ?thesis by (intro exI [of _ "Suc i"]) simp
    qed
  qed
qed

lemma band_unique:
  fixes p :: "'a::linorder"
  assumes "sorted_wrt (<) zs" "Suc i < length zs" "Suc j < length zs"
    and "zs ! i \<le> p" "p < zs ! Suc i" "zs ! j \<le> p" "p < zs ! Suc j"
  shows "i = j"
proof (rule ccontr)
  assume "i \<noteq> j"
  then consider "i < j" | "j < i" by linarith
  then show False
  proof cases
    case 1
    then have "zs ! Suc i \<le> zs ! j"
      using assms(1,3) sorted_wrt_nth_less [of "(<)" zs "Suc i" j] by (cases "Suc i = j") auto
    with assms(5,6) show False by simp
  next
    case 2
    then have "zs ! Suc j \<le> zs ! i"
      using assms(1,2) sorted_wrt_nth_less [of "(<)" zs "Suc j" i] by (cases "Suc j = i") auto
    with assms(4,7) show False by simp
  qed
qed

lemma arange_list_increasing: "0 < s \<Longrightarrow> sorted_wrt (<) (arange_list a b s)"
  by (simp add: sorted_wrt_iff_nth_less arange_list_nth)

lemma of_int_increasing:
  "sorted_wrt (<) zs \<Longrightarrow> sorted_wrt (<) (map (of_int :: int \<Rightarrow> 'a::linordered_idom) zs)"
  by (simp add: sorted_wrt_map)

lemma grid_rows_mem:
  fixes step xs_min xs_max ys_min ys_max :: int
  assumes "step \<noteq> 0" and "get_grid_df step xs_min xs_max ys_min ys_max = Inr rows"
  defines "xs \<equiv> arange_list xs_min xs_max step" and "ys \<equiv> arange_list ys_min ys_max step"
  shows "r \<in> set rows \<longleftrightarrow>
         (\<exists>i j. Suc i < length xs \<and> Suc j < length ys
                \<and> r = grid_cell xs ys i j (1 + int (i * (length ys - 1) + j)))"
proof -
  define n where "n = length xs - 1"
  define m where "m = length ys - 1"
  from get_grid_df_rows [OF assms(1), of xs_min xs_max ys_min ys_max] assms(2)
  have rows: "rows = map (\<lambda>k. grid_cell xs ys (k div m) (k mod m) (1 + int k)) [0 ..< n * m]"
    by (simp add: xs_def ys_def n_def m_def)
  show ?thesis
  proof
    assume "r \<in> set rows"
    then obtain k where k: "k < n * m" "r = grid_cell xs ys (k div m) (k mod m) (1 + int k)"
      using rows by auto
    from div_mod_in_block [OF k(1)] have "Suc (k div m) < length xs" "Suc (k mod m) < length ys"
      by (simp_all add: n_def m_def)
    moreover have "k = k div m * m + k mod m" by simp
    ultimately show "\<exists>i j. Suc i < length xs \<and> Suc j < length ys
                \<and> r = grid_cell xs ys i j (1 + int (i * (length ys - 1) + j))"
      using k(2) unfolding m_def [symmetric] by metis
  next
    assume "\<exists>i j. Suc i < length xs \<and> Suc j < length ys
                \<and> r = grid_cell xs ys i j (1 + int (i * (length ys - 1) + j))"
    then obtain i j where ij0: "Suc i < length xs" "Suc j < length ys"
        "r = grid_cell xs ys i j (1 + int (i * (length ys - 1) + j))"
      by blast
    then have ij: "i < n" "j < m" "r = grid_cell xs ys i j (1 + int (i * m + j))"
      unfolding n_def m_def by linarith+
    have "i * m + j < Suc i * m" using ij(2) by simp
    also have "\<dots> \<le> n * m" using ij(1) by (intro mult_le_mono1) simp
    finally have k: "i * m + j < n * m" .
    have "(i * m + j) div m = i" "(i * m + j) mod m = j" using ij(2) by simp_all
    then have "r = (\<lambda>k. grid_cell xs ys (k div m) (k mod m) (1 + int k)) (i * m + j)"
      using ij(3) by simp
    moreover have "i * m + j \<in> set [0 ..< n * m]" using k by simp
    ultimately show "r \<in> set rows"
      unfolding rows set_map by (rule image_eqI)
  qed
qed

lemma cell_contains_grid_cell:
  "cell_contains (grid_cell xs ys i j c) px py \<longleftrightarrow>
     map of_int xs ! i \<le> px \<and> px < map of_int xs ! Suc i
     \<and> map of_int ys ! j \<le> py \<and> py < map of_int ys ! Suc j"
  if "Suc i < length xs" "Suc j < length ys"
  using that by (simp add: cell_contains_def grid_cell_bounds)

lemma band_of_point:
  fixes p :: "'a::linordered_idom"
  assumes "0 < s" and "of_int a \<le> p" and "p < of_int (a + int (length (arange_list a b s) - 1) * s)"
  shows "\<exists>i. Suc i < length (arange_list a b s)
             \<and> map of_int (arange_list a b s) ! i \<le> p \<and> p < map of_int (arange_list a b s) ! Suc i"
proof -
  define zs where "zs = arange_list a b s"
  define n where "n = length zs - 1"
  have ne: "zs \<noteq> []"
  proof
    assume "zs = []"
    then have "p < of_int a" using assms(3) by (simp add: zs_def)
    with assms(2) show False by simp
  qed
  then have len: "length zs = Suc n" by (cases zs) (simp_all add: n_def)
  have "0 < length (arange_list a b s)" "n < length (arange_list a b s)"
    using len by (simp_all add: zs_def)
  then have "zs ! 0 = a" "zs ! n = a + int n * s"
    unfolding zs_def by (simp_all add: arange_list_nth)
  then have "hd zs = a" "last zs = a + int n * s"
    using ne len by (simp_all add: hd_conv_nth last_conv_nth)
  then have "hd (map of_int zs) \<le> p" "p < last (map of_int zs)"
    using ne assms(2,3) by (simp_all add: hd_map last_map zs_def n_def)
  moreover have "sorted_wrt (<) (map (of_int :: int \<Rightarrow> 'a) zs)"
    unfolding zs_def by (intro of_int_increasing arange_list_increasing assms(1))
  ultimately obtain i where "Suc i < length (map (of_int :: int \<Rightarrow> 'a) zs)"
      "map of_int zs ! i \<le> p" "p < map of_int zs ! Suc i"
    using band_exists [of "map of_int zs" p] ne by auto
  then show ?thesis unfolding zs_def by auto
qed

lemma band_within:
  fixes p :: "'a::linordered_idom"
  assumes "0 < s" and "Suc i < length (arange_list a b s)"
    and "map of_int (arange_list a b s) ! i \<le> p" and "p < map of_int (arange_list a b s) ! Suc i"
  shows "of_int a \<le> p \<and> p < of_int (a + int (length (arange_list a b s) - 1) * s)"
proof -
  have i: "i < length (arange_list a b s)" using assms(2) by simp
  have "a \<le> a + int i * s" using assms(1) by simp
  then have "(of_int a :: 'a) \<le> of_int (a + int i * s)" by (simp only: of_int_le_iff)
  moreover have "int (Suc i) * s \<le> int (length (arange_list a b s) - 1) * s"
    using assms(1,2) by (intro mult_right_mono) simp_all
  then have "(of_int (a + int (Suc i) * s) :: 'a) \<le> of_int (a + int (length (arange_list a b s) - 1) * s)"
    by (simp only: of_int_le_iff add_le_cancel_left)
  ultimately show ?thesis
    using assms(3,4) i assms(2) by (simp only: nth_map arange_list_nth) simp
qed

text \<open>
  With a positive step the cells tile the box from the lower bounds
  to the last value of each coordinate array, \<open>xs_min + (len(xs) - 1) * step\<close> and
  \<open>ys_min + (len(ys) - 1) * step\<close>: a point lies in some cell exactly when it lies in
  that box, and never in two cells. The box stops short of \<open>xs_max\<close> and \<open>ys_max\<close>.
\<close>

theorem grid_tiles_covered_box:
  fixes px py :: "'a::linordered_idom"
  assumes "0 < step" and "get_grid_df step xs_min xs_max ys_min ys_max = Inr rows"
  shows "((\<exists>r. r \<in> set rows \<and> cell_contains r px py) \<longleftrightarrow>
            of_int xs_min \<le> px
            \<and> px < of_int (xs_min + int (length (arange_list xs_min xs_max step) - 1) * step)
            \<and> of_int ys_min \<le> py
            \<and> py < of_int (ys_min + int (length (arange_list ys_min ys_max step) - 1) * step))
       \<and> (\<forall>r1 r2. r1 \<in> set rows \<and> r2 \<in> set rows \<and> cell_contains r1 px py \<and> cell_contains r2 px py
             \<longrightarrow> r1 = r2)"
proof -
  define xs where "xs = arange_list xs_min xs_max step"
  define ys where "ys = arange_list ys_min ys_max step"
  have nz: "step \<noteq> 0" using assms(1) by simp
  note mem = grid_rows_mem [OF nz assms(2), folded xs_def ys_def]
  have incx: "sorted_wrt (<) (map (of_int :: int \<Rightarrow> 'a) xs)"
    and incy: "sorted_wrt (<) (map (of_int :: int \<Rightarrow> 'a) ys)"
    unfolding xs_def ys_def by (intro of_int_increasing arange_list_increasing assms(1))+
  have cover: "\<exists>r. r \<in> set rows \<and> cell_contains r px py"
    if "of_int xs_min \<le> px" "px < of_int (xs_min + int (length xs - 1) * step)"
      "of_int ys_min \<le> py" "py < of_int (ys_min + int (length ys - 1) * step)"
  proof -
    from band_of_point [OF assms(1) that(1)] that(2) obtain i where
      i: "Suc i < length xs" "map of_int xs ! i \<le> px" "px < map of_int xs ! Suc i"
      unfolding xs_def by blast
    from band_of_point [OF assms(1) that(3)] that(4) obtain j where
      j: "Suc j < length ys" "map of_int ys ! j \<le> py" "py < map of_int ys ! Suc j"
      unfolding ys_def by blast
    have "grid_cell xs ys i j (1 + int (i * (length ys - 1) + j)) \<in> set rows"
      using i(1) j(1) by (subst mem) blast
    moreover have "cell_contains (grid_cell xs ys i j (1 + int (i * (length ys - 1) + j))) px py"
      using i j by (simp only: cell_contains_grid_cell)
    ultimately show ?thesis by blast
  qed
  have inside: "of_int xs_min \<le> px \<and> px < of_int (xs_min + int (length xs - 1) * step)
      \<and> of_int ys_min \<le> py \<and> py < of_int (ys_min + int (length ys - 1) * step)"
    if "r \<in> set rows" "cell_contains r px py" for r
  proof -
    from that(1) obtain i j where ij: "Suc i < length xs" "Suc j < length ys"
      "r = grid_cell xs ys i j (1 + int (i * (length ys - 1) + j))"
      by (subst (asm) mem) blast
    with that(2) have c: "map of_int xs ! i \<le> px" "px < map of_int xs ! Suc i"
      "map of_int ys ! j \<le> py" "py < map of_int ys ! Suc j"
      by (simp_all only: cell_contains_grid_cell)
    show ?thesis
      using band_within [OF assms(1) ij(1) [unfolded xs_def] c(1,2) [unfolded xs_def]]
        band_within [OF assms(1) ij(2) [unfolded ys_def] c(3,4) [unfolded ys_def]]
      by (simp add: xs_def ys_def)
  qed
  have unique: "r1 = r2"
    if "r1 \<in> set rows" "r2 \<in> set rows" "cell_contains r1 px py" "cell_contains r2 px py" for r1 r2
  proof -
    from that(1) obtain i j where ij: "Suc i < length xs" "Suc j < length ys"
      "r1 = grid_cell xs ys i j (1 + int (i * (length ys - 1) + j))"
      by (subst (asm) mem) blast
    from that(2) obtain i' j' where ij': "Suc i' < length xs" "Suc j' < length ys"
      "r2 = grid_cell xs ys i' j' (1 + int (i' * (length ys - 1) + j'))"
      by (subst (asm) mem) blast
    from that(3) ij have c: "map of_int xs ! i \<le> px" "px < map of_int xs ! Suc i"
      "map of_int ys ! j \<le> py" "py < map of_int ys ! Suc j"
      by (simp_all only: cell_contains_grid_cell)
    from that(4) ij' have c': "map of_int xs ! i' \<le> px" "px < map of_int xs ! Suc i'"
      "map of_int ys ! j' \<le> py" "py < map of_int ys ! Suc j'"
      by (simp_all only: cell_contains_grid_cell)
    have "i = i'"
      using band_unique [OF incx _ _ c(1,2) c'(1,2)] ij(1) ij'(1) by simp
    moreover have "j = j'"
      using band_unique [OF incy _ _ c(3,4) c'(3,4)] ij(2) ij'(2) by simp
    ultimately show ?thesis using ij(3) ij'(3) by simp
  qed
  show ?thesis
    using cover inside unique unfolding xs_def ys_def by blast
qed

theorem grid_tiles_covered_box_witness:
  "\<exists>r. r \<in> set [\<lparr>Id = 1, tile_code = ''e0-e1-n0-n1'', x_min = 0, x_max = 1, y_min = 0, y_max = 1,
                       geometry = ''POLYGON((0 0, 0 1, 1 1, 1 0, 0 0))''\<rparr>,
                     \<lparr>Id = 2, tile_code = ''e1-e2-n0-n1'', x_min = 1, x_max = 2, y_min = 0, y_max = 1,
                       geometry = ''POLYGON((1 0, 1 1, 2 1, 2 0, 1 0))''\<rparr>]
        \<and> cell_contains r (1 :: int) 0"
proof -
  have run: "get_grid_df 1 0 3 0 2 =
     Inr [\<lparr>Id = 1, tile_code = ''e0-e1-n0-n1'', x_min = 0, x_max = 1, y_min = 0, y_max = 1,
            geometry = ''POLYGON((0 0, 0 1, 1 1, 1 0, 0 0))''\<rparr>,
          \<lparr>Id = 2, tile_code = ''e1-e2-n0-n1'', x_min = 1, x_max = 2, y_min = 0, y_max = 1,
            geometry = ''POLYGON((1 0, 1 1, 2 1, 2 0, 1 0))''\<rparr>]"
    by code_simp
  have len: "length (arange_list 0 3 1) = 3" "length (arange_list 0 2 1) = 2"
    by (simp_all add: arange_list_def)
  show ?thesis
    using grid_tiles_covered_box [OF _ run, of "1 :: int" 0] by (simp only: len) simp
qed

subsection \<open>Runs of the loops\<close>










subsection \<open>The example of the specification\<close>

text \<open>
  Claim C1. For \<^verbatim>\<open>get_grid_df(1, 0, 3, 0, 2)\<close> the specification expects six cells, the
  sixth one (2, 3, 1, 2). \<^verbatim>\<open>np.arange\<close> leaves the upper bound out (\<open>xs = [0, 1, 2]\<close>,
  \<open>ys = [0, 1]\<close>) and the loops stop one index before the end, so the table has
  two cells, (0, 1, 0, 1) and (1, 2, 0, 1).
\<close>

theorem get_grid_df_1_0_3_0_2:
  "get_grid_df 1 0 3 0 2 =
     Inr [\<lparr>Id = 1, tile_code = ''e0-e1-n0-n1'', x_min = 0, x_max = 1, y_min = 0, y_max = 1,
            geometry = ''POLYGON((0 0, 0 1, 1 1, 1 0, 0 0))''\<rparr>,
          \<lparr>Id = 2, tile_code = ''e1-e2-n0-n1'', x_min = 1, x_max = 2, y_min = 0, y_max = 1,
            geometry = ''POLYGON((1 0, 1 1, 2 1, 2 0, 1 0))''\<rparr>]"
  by code_simp

subsection \<open>Degenerate arguments\<close>




end
